theory Spec2Isabelle
  imports Complex_Main "HOL-Library.Sublist"
begin

section \<open>Values\<close>

text \<open>
  The converter walks plain JavaScript data. A \<open>node\<close> is what the caller hands in:
  \<open>undefined\<close>, \<open>null\<close>, booleans, numbers, strings, regular expressions, arrays and
  plain objects with string keys (listed in enumeration order). A number is only ever
  tested for truthiness and passed on, so it is kept as \<open>NaN\<close>, an infinity or a rational
  (\<open>-0\<close> and \<open>0\<close> coincide; both are falsy). A regular expression is kept as its source
  text. Strings are compared and searched unit by unit; the marker \<open>yup.\<close> is ASCII.
\<close>

datatype number = NaN | PosInf | NegInf | Finite rat

datatype node =
    Undefined
  | Null
  | Bool bool
  | Num number
  | Str string
  | RegExp string
  | Seq "node list"
  | Mapping "(string \<times> node) list"

text \<open>
  A \<open>val\<close> is what the converter produces: the same data, or an object handed back
  by the validation library or by a custom validator (\<open>VLib\<close>), which the converter never
  looks into.
\<close>

datatype 'o val =
    VUndefined
  | VNull
  | VBool bool
  | VNum number
  | VStr string
  | VRegExp string
  | VArr "'o val list"
  | VObj "(string \<times> 'o val) list"
  | VLib 'o

text \<open>A raw node that ends up in the output unchanged.\<close>

fun embed :: "node \<Rightarrow> 'o val" where
  "embed Undefined = VUndefined"
| "embed Null = VNull"
| "embed (Bool b) = VBool b"
| "embed (Num n) = VNum n"
| "embed (Str s) = VStr s"
| "embed (RegExp r) = VRegExp r"
| "embed (Seq xs) = VArr (map embed xs)"
| "embed (Mapping kvs) = VObj (map (\<lambda>(k, v). (k, embed v)) kvs)"

section \<open>Errors\<close>

text \<open>
  \<open>ValidationError\<close> is the module's own error class, with its message. \<open>Error\<close> is a
  plain \<open>Error\<close> with its message, as the entry point throws it. \<open>TypeError\<close> and
  \<open>SyntaxError\<close> are raised by the runtime. \<open>OtherError\<close> stands for whatever else a
  builder of the library or a custom validator throws.
\<close>

datatype exn =
    ValidationError string
  | Error string
  | TypeError
  | SyntaxError
  | OtherError string

section \<open>The environment\<close>

text \<open>
  A builder is a JavaScript function already bound to its receiver: it takes the argument
  list and returns a value or throws.

  The environment collects what the module imports and what the runtime supplies:
  \<^item> \<open>getCustomValidator\<close>: the registry lookup of \<open>./custom.validators\<close>; \<open>None\<close> when
    the result is falsy. A truthy entry that is not callable is a builder that throws
    \<open>TypeError\<close>.
  \<^item> \<open>yup\<close>: the namespace object of the validation library.
  \<^item> \<open>member v name\<close>: \<open>Some f\<close> when \<open>typeof v[name] === 'function'\<close>, where \<open>f\<close> is
    \<open>v[name].bind(v)\<close>; the lookup follows the prototype chain, so arrays, strings and
    plain objects have callable members too.
  \<^item> \<open>JSON_stringify\<close>: \<open>JSON.stringify(x, null, 4)\<close> put into a string concatenation.
  \<^item> \<open>toString\<close>: the string a value turns into in a concatenation or as a property key.
  \<^item> \<open>regexp_ok\<close>: whether \<open>new RegExp(s)\<close> accepts the pattern \<open>s\<close>.
\<close>

type_synonym 'o builder = "'o val list \<Rightarrow> exn + 'o val"

record 'o env =
  getCustomValidator :: "node \<Rightarrow> 'o builder option"
  yup :: "'o"
  member :: "'o val \<Rightarrow> string \<Rightarrow> 'o builder option"
  JSON_stringify :: "node \<Rightarrow> string"
  toString :: "node \<Rightarrow> string"
  regexp_ok :: "string \<Rightarrow> bool"

section \<open>Runtime operations\<close>

fun number_truthy :: "number \<Rightarrow> bool" where
  "number_truthy NaN = False"
| "number_truthy PosInf = True"
| "number_truthy NegInf = True"
| "number_truthy (Finite q) = (q \<noteq> 0)"

fun truthy_node :: "node \<Rightarrow> bool" where
  "truthy_node Undefined = False"
| "truthy_node Null = False"
| "truthy_node (Bool b) = b"
| "truthy_node (Num n) = number_truthy n"
| "truthy_node (Str s) = (s \<noteq> [])"
| "truthy_node (RegExp r) = True"
| "truthy_node (Seq xs) = True"
| "truthy_node (Mapping kvs) = True"

fun truthy :: "'o val \<Rightarrow> bool" where
  "truthy VUndefined = False"
| "truthy VNull = False"
| "truthy (VBool b) = b"
| "truthy (VNum n) = number_truthy n"
| "truthy (VStr s) = (s \<noteq> [])"
| "truthy (VRegExp r) = True"
| "truthy (VArr xs) = True"
| "truthy (VObj kvs) = True"
| "truthy (VLib x) = True"

fun isArray :: "node \<Rightarrow> bool" where
  "isArray (Seq xs) = True"
| "isArray n = False"

fun isArrayV :: "'o val \<Rightarrow> bool" where
  "isArrayV (VArr xs) = True"
| "isArrayV v = False"

text \<open>The elements of an array value.\<close>

fun elements :: "'o val \<Rightarrow> 'o val list" where
  "elements (VArr xs) = xs"
| "elements v = []"

fun typeof :: "node \<Rightarrow> string" where
  "typeof Undefined = ''undefined''"
| "typeof Null = ''object''"
| "typeof (Bool b) = ''boolean''"
| "typeof (Num n) = ''number''"
| "typeof (Str s) = ''string''"
| "typeof (RegExp r) = ''object''"
| "typeof (Seq xs) = ''object''"
| "typeof (Mapping kvs) = ''object''"

fun isRegExp :: "node \<Rightarrow> bool" where
  "isRegExp (RegExp r) = True"
| "isRegExp n = False"

text \<open>\<open>xs[0]\<close>: \<open>undefined\<close> on an empty array.\<close>

fun first :: "node list \<Rightarrow> node" where
  "first [] = Undefined"
| "first (x # xs) = x"

text \<open>\<open>s.indexOf(sub)\<close> on strings: the first position where \<open>sub\<close> starts, \<open>None\<close> for \<open>-1\<close>.\<close>

fun indexOf_from :: "string \<Rightarrow> string \<Rightarrow> nat \<Rightarrow> nat option" where
  "indexOf_from [] sub i = (if sub = [] then Some i else None)"
| "indexOf_from (c # cs) sub i =
     (if prefix sub (c # cs) then Some i else indexOf_from cs sub (Suc i))"

definition indexOf :: "string \<Rightarrow> string \<Rightarrow> nat option" where
  "indexOf s sub = indexOf_from s sub 0"

text \<open>\<open>xs.indexOf(x)\<close> on arrays: the first position holding \<open>x\<close>.\<close>

fun array_indexOf_from :: "node list \<Rightarrow> node \<Rightarrow> nat \<Rightarrow> nat option" where
  "array_indexOf_from [] x i = None"
| "array_indexOf_from (y # ys) x i =
     (if y = x then Some i else array_indexOf_from ys x (Suc i))"

text \<open>Decimal digits of an array or string index, for \<open>Object.entries\<close>.\<close>

fun string_of_nat :: "nat \<Rightarrow> string" where
  "string_of_nat n =
     (if n < 10 then [''0123456789'' ! n]
      else string_of_nat (n div 10) @ [''0123456789'' ! (n mod 10)])"

declare string_of_nat.simps [simp del]

text \<open>
  \<open>Object.entries(x)\<close>: throws on \<open>undefined\<close> and \<open>null\<close>; a string yields its
  characters and an array its elements, keyed by index; a boolean, a number and a regular
  expression have no enumerable property of their own.
\<close>

fun Object_entries :: "node \<Rightarrow> exn + (string \<times> node) list" where
  "Object_entries Undefined = Inl TypeError"
| "Object_entries Null = Inl TypeError"
| "Object_entries (Bool b) = Inr []"
| "Object_entries (Num n) = Inr []"
| "Object_entries (Str s) =
     Inr (map (\<lambda>i. (string_of_nat i, Str [s ! i])) [0..<length s])"
| "Object_entries (RegExp r) = Inr []"
| "Object_entries (Seq xs) =
     Inr (map (\<lambda>i. (string_of_nat i, xs ! i)) [0..<length xs])"
| "Object_entries (Mapping kvs) = Inr kvs"

text \<open>
  \<open>toReturn[key] = value\<close> on an object that started as \<open>{}\<close>: a new key goes to the
  end, a known key keeps its place. The key \<open>__proto__\<close> reaches the inherited setter and
  adds no property (the prototype it may install is not modelled).
\<close>

fun assign :: "(string \<times> 'o val) list \<Rightarrow> string \<Rightarrow> 'o val \<Rightarrow> (string \<times> 'o val) list" where
  "assign [] k v = [(k, v)]"
| "assign ((k', v') # kvs) k v =
     (if k' = k then (k, v) # kvs else (k', v') # assign kvs k v)"

definition set_prop :: "(string \<times> 'o val) list \<Rightarrow> string \<Rightarrow> 'o val \<Rightarrow> (string \<times> 'o val) list" where
  "set_prop obj k v = (if k = ''__proto__'' then obj else assign obj k v)"

text \<open>A parameter declared \<open>previousInstance = yup\<close>: \<open>undefined\<close> selects the default.\<close>

definition dflt :: "'o env \<Rightarrow> 'o val \<Rightarrow> 'o val" where
  "dflt env ctx = (if ctx = VUndefined then VLib (yup env) else ctx)"

text \<open>
  \<open>typeof v[name] === 'function'\<close> followed by \<open>v[name].bind(v)\<close>: reading a property of
  \<open>undefined\<close> or \<open>null\<close> throws.
\<close>

fun get_callable :: "'o env \<Rightarrow> 'o val \<Rightarrow> string \<Rightarrow> exn + 'o builder option" where
  "get_callable env VUndefined name = Inl TypeError"
| "get_callable env VNull name = Inl TypeError"
| "get_callable env v name = Inr (member env v name)"

text \<open>The string a name turns into inside a message or as a property key.\<close>

fun to_string :: "'o env \<Rightarrow> node \<Rightarrow> string" where
  "to_string env (Str s) = s"
| "to_string env n = toString env n"

section \<open>Name resolution\<close>

text \<open>
  \<open>getSubString(string, substring)\<close>. \<open>None\<close> is the \<open>null\<close> result. On a string the
  result is the text after the first occurrence. An array has \<open>indexOf\<close> and \<open>slice\<close>
  of its own; any other truthy value has no \<open>indexOf\<close> and the call throws.
\<close>

fun getSubString :: "node \<Rightarrow> string \<Rightarrow> exn + node option" where
  "getSubString (Str s) sub =
     (if s = [] then Inr None
      else (case indexOf s sub of
              Some i \<Rightarrow> Inr (Some (Str (drop (i + length sub) s)))
            | None \<Rightarrow> Inr None))"
| "getSubString (Seq xs) sub =
     (case array_indexOf_from xs (Str sub) 0 of
        Some i \<Rightarrow> Inr (Some (Seq (drop (i + length sub) xs)))
      | None \<Rightarrow> Inr None)"
| "getSubString n sub = (if truthy_node n then Inl TypeError else Inr None)"

text \<open>
  \<open>getYupFunction(functionName, previousInstance = yup)\<close>: the registry first, then a
  callable member of the previous instance, then a callable member of \<open>yup\<close>.
\<close>

definition getYupFunction :: "'o env \<Rightarrow> node \<Rightarrow> 'o val \<Rightarrow> exn + 'o builder" where
  "getYupFunction env functionName0 previousInstance =
     (let functionName =
            (case functionName0 of Seq xs \<Rightarrow> first xs | _ \<Rightarrow> functionName0)
      in case getCustomValidator env functionName of
           Some customValidator \<Rightarrow> Inr customValidator
         | None \<Rightarrow>
            (case getSubString functionName ''yup.'' of
               Inl e \<Rightarrow> Inl e
             | Inr None \<Rightarrow>
                 Inl (ValidationError (''Could not find validator '' @ to_string env functionName))
             | Inr (Some yupName) \<Rightarrow>
                 if \<not> truthy_node yupName
                 then Inl (ValidationError (''Could not find validator '' @ to_string env functionName))
                 else
                  (case get_callable env (dflt env previousInstance) (to_string env yupName) of
                     Inl e \<Rightarrow> Inl e
                   | Inr (Some f) \<Rightarrow> Inr f
                   | Inr None \<Rightarrow>
                      (case get_callable env (VLib (yup env)) (to_string env yupName) of
                         Inl e \<Rightarrow> Inl e
                       | Inr (Some f) \<Rightarrow> Inr f
                       | Inr None \<Rightarrow>
                           Inl (ValidationError
                                  (''Could not find validator '' @ to_string env functionName))))))"

section \<open>Classifying an array\<close>

text \<open>\<open>isPrefixNotation([functionName])\<close>: only the first element is looked at.\<close>

fun isPrefixNotation :: "node list \<Rightarrow> bool" where
  "isPrefixNotation [] = False"
| "isPrefixNotation (Seq ys # rest) = (if isPrefixNotation ys then True else False)"
| "isPrefixNotation (Str s # rest) = (if indexOf s ''yup.'' = None then False else True)"
| "isPrefixNotation (x # rest) = False"

fun ensureArray :: "node \<Rightarrow> node list" where
  "ensureArray (Seq xs) = xs"
| "ensureArray n = [n]"


section \<open>The converter\<close>

text \<open>
  Lines 118 to 124 of \<open>convertArray\<close>: a call named \<open>yup.matches\<close> whose first argument
  is not of type \<open>object\<close> gets that argument replaced by \<open>new RegExp(regexString)\<close>,
  which throws \<open>SyntaxError\<close> on a pattern the runtime rejects.
\<close>

definition matchesArgs :: "'o env \<Rightarrow> node \<Rightarrow> node list \<Rightarrow> exn + node list" where
  "matchesArgs env functionName argsToPass =
     (if functionName = Str ''yup.matches'' \<and> typeof (first argsToPass) \<noteq> ''object''
      then (case first argsToPass of
              Str regexString \<Rightarrow>
                (if regexp_ok env regexString
                 then Inr (argsToPass[0 := RegExp regexString])
                 else Inl SyntaxError)
            | _ \<Rightarrow> Inl (ValidationError
                ''The first argument to matches() must be either a RegExp or a string''))
      else Inr argsToPass)"

text \<open>
  The five functions of the module that call each other, and the bodies of their three
  loops (\<open>forEach\<close> in \<open>transformArray\<close> and \<open>transformObject\<close>, \<open>map\<close> in
  \<open>transformAll\<close>). A loop stops at the first exception. \<open>transformArray\<close> takes the
  elements of its array: each of its three call sites passes an array. A call without the
  second argument passes \<open>VUndefined\<close>, and every function with the default parameter
  reads its context through \<open>dflt\<close>.
\<close>

function (sequential)
    convertArray :: "'o env \<Rightarrow> node \<Rightarrow> 'o val \<Rightarrow> exn + 'o val"
and transformArray :: "'o env \<Rightarrow> node list \<Rightarrow> 'o val \<Rightarrow> exn + 'o val"
and transformArray_forEach :: "'o env \<Rightarrow> 'o val \<Rightarrow> node list \<Rightarrow> 'o val \<Rightarrow> exn + 'o val"
and transformObject :: "'o env \<Rightarrow> node \<Rightarrow> 'o val \<Rightarrow> exn + 'o val"
and transformObject_forEach ::
      "'o env \<Rightarrow> 'o val \<Rightarrow> (string \<times> node) list \<Rightarrow> (string \<times> 'o val) list \<Rightarrow> exn + 'o val"
and transformAll :: "'o env \<Rightarrow> node \<Rightarrow> 'o val \<Rightarrow> exn + 'o val"
and transformAll_map :: "'o env \<Rightarrow> 'o val \<Rightarrow> node list \<Rightarrow> exn + 'o val list"
where
  "convertArray env arrayArgument previousInstance =
     (if isArray (first (ensureArray arrayArgument))
      then transformArray env (ensureArray arrayArgument) VUndefined
      else
       (case getYupFunction env (first (ensureArray arrayArgument)) previousInstance of
          Inl e \<Rightarrow> Inl e
        | Inr gotFunc \<Rightarrow>
           (case matchesArgs env (first (ensureArray arrayArgument))
                   (tl (ensureArray arrayArgument)) of
              Inl e \<Rightarrow> Inl e
            | Inr argsToPass \<Rightarrow>
               (case transformAll env (Seq argsToPass) (dflt env previousInstance) of
                  Inl e \<Rightarrow> Inl e
                | Inr convertedArguments \<Rightarrow>
                   (case convertedArguments of
                      VArr vs \<Rightarrow>
                        if length (filter truthy vs) < 1 then gotFunc [] else gotFunc vs
                    | _ \<Rightarrow> gotFunc [convertedArguments])))))"
| "transformArray env jsonArray previousInstance =
     (case convertArray env (first jsonArray) (dflt env previousInstance) of
        Inl e \<Rightarrow> Inl e
      | Inr toReturn \<Rightarrow>
          transformArray_forEach env (dflt env previousInstance) (tl jsonArray) toReturn)"
| "transformArray_forEach env previousInstance [] toReturn = Inr toReturn"
| "transformArray_forEach env previousInstance (item # items) toReturn =
     (if isArray item
      then (case convertArray env item toReturn of
              Inl e \<Rightarrow> Inl e
            | Inr r \<Rightarrow> transformArray_forEach env previousInstance items r)
      else if item = Str ''object''
      then (case transformObject env item previousInstance of
              Inl e \<Rightarrow> Inl e
            | Inr r \<Rightarrow> transformArray_forEach env previousInstance items r)
      else if isArrayV toReturn
      then transformArray_forEach env previousInstance items
             (VArr (elements toReturn @ [embed item]))
      else transformArray_forEach env previousInstance items (VArr [toReturn, embed item]))"
| "transformObject env jsonObject previousInstance =
     (case Object_entries jsonObject of
        Inl e \<Rightarrow> Inl e
      | Inr entries \<Rightarrow> transformObject_forEach env (dflt env previousInstance) entries [])"
| "transformObject_forEach env previousInstance [] toReturn = Inr (VObj toReturn)"
| "transformObject_forEach env previousInstance ((key, value) # entries) toReturn =
     (if isArray value
      then (case transformArray env (ensureArray value) previousInstance of
              Inl e \<Rightarrow> Inl e
            | Inr v \<Rightarrow>
                transformObject_forEach env previousInstance entries (set_prop toReturn key v))
      else if typeof value = ''object''
      then (case transformObject env value previousInstance of
              Inl e \<Rightarrow> Inl e
            | Inr v \<Rightarrow>
                transformObject_forEach env previousInstance entries (set_prop toReturn key v))
      else transformObject_forEach env previousInstance entries
             (set_prop toReturn key (embed value)))"
| "transformAll env (Seq xs) previousInstance =
     (if isPrefixNotation xs
      then transformArray env xs (dflt env previousInstance)
      else (case transformAll_map env (dflt env previousInstance) xs of
              Inl e \<Rightarrow> Inl e
            | Inr vs \<Rightarrow> Inr (VArr vs)))"
| "transformAll env jsonObjectOrArray previousInstance =
     (if typeof jsonObjectOrArray = ''object'' \<and> \<not> isRegExp jsonObjectOrArray
      then transformObject env jsonObjectOrArray (dflt env previousInstance)
      else Inr (embed jsonObjectOrArray))"
| "transformAll_map env previousInstance [] = Inr []"
| "transformAll_map env previousInstance (i # rest) =
     (case transformAll env i previousInstance of
        Inl e \<Rightarrow> Inl e
      | Inr v \<Rightarrow>
         (case transformAll_map env previousInstance rest of
            Inl e \<Rightarrow> Inl e
          | Inr vs \<Rightarrow> Inr (v # vs)))"
  by pat_completeness auto

text \<open>
  \<open>transform(jsonObjectOrArray)\<close>: the entry point. \<open>transform_try\<close> is the body of
  its \<open>try\<close> block: anything that is not an array is wrapped into an object chain.
  The \<open>catch\<close> block replaces a \<open>ValidationError\<close> by an \<open>Error\<close> whose message holds
  the serialised argument, a line break and the original message, and throws anything
  else again.
\<close>

definition transform_try :: "'o env \<Rightarrow> node \<Rightarrow> exn + 'o val" where
  "transform_try env jsonObjectOrArray =
     (if \<not> isArray jsonObjectOrArray
      then transformAll env
             (Seq [Seq [Str ''yup.object''],
                   Seq [Str ''yup.required''],
                   Seq [Str ''yup.shape'', jsonObjectOrArray]])
             VUndefined
      else transformAll env jsonObjectOrArray VUndefined)"

definition transform :: "'o env \<Rightarrow> node \<Rightarrow> exn + 'o val" where
  "transform env jsonObjectOrArray =
     (case transform_try env jsonObjectOrArray of
        Inr v \<Rightarrow> Inr v
      | Inl error \<Rightarrow>
         (case error of
            ValidationError message \<Rightarrow>
              Inl (Error (''Could not validate '' @ JSON_stringify env jsonObjectOrArray
                            @ [CHR 0x0A] @ message))
          | _ \<Rightarrow> Inl error))"

section \<open>The specification's own notions\<close>

text \<open>
  The specification calls a sequence an invocation when its head is a string that
  contains the marker, or is itself a sequence that is an invocation.
\<close>

inductive invocation :: "node list \<Rightarrow> bool" where
  head_marker: "sublist ''yup.'' s \<Longrightarrow> invocation (Str s # rest)"
| head_nested: "invocation ys \<Longrightarrow> invocation (Seq ys # rest)"

code_pred invocation .

text \<open>
  The bare primitive name of the specification: everything up to and including the first
  marker is stripped; \<open>None\<close> when the name has no marker.
\<close>

fun bare_name :: "string \<Rightarrow> string option" where
  "bare_name [] = None"
| "bare_name (c # cs) =
     (if prefix ''yup.'' (c # cs) then Some (drop (length ''yup.'') (c # cs))
      else bare_name cs)"

text \<open>
  The resolution order of the specification for a name that is a string: the custom
  registry, then the callable members of the chaining context (the library root when there
  is none), then the callable members of the library root, then the name-resolution error.
\<close>

definition resolve_name :: "'o env \<Rightarrow> string \<Rightarrow> 'o val \<Rightarrow> exn + 'o builder" where
  "resolve_name env name ctx =
     (case getCustomValidator env (Str name) of
        Some custom \<Rightarrow> Inr custom
      | None \<Rightarrow>
         (case bare_name name of
            None \<Rightarrow> Inl (ValidationError (''Could not find validator '' @ name))
          | Some bare \<Rightarrow>
             (case get_callable env (dflt env ctx) bare of
                Inl e \<Rightarrow> Inl e
              | Inr (Some f) \<Rightarrow> Inr f
              | Inr None \<Rightarrow>
                 (case get_callable env (VLib (yup env)) bare of
                    Inl e \<Rightarrow> Inl e
                  | Inr (Some f) \<Rightarrow> Inr f
                  | Inr None \<Rightarrow>
                      Inl (ValidationError (''Could not find validator '' @ name))))))"

text \<open>
  One step of the chain of the specification, on an outcome so far: a sequence is invoked
  on the accumulator, the marker \<open>object\<close> goes to the shape compiler, any other element
  is appended to a list accumulator or paired with the accumulator.
\<close>

definition chain_step :: "'o env \<Rightarrow> 'o val \<Rightarrow> exn + 'o val \<Rightarrow> node \<Rightarrow> exn + 'o val" where
  "chain_step env ctx outcome item =
     (case outcome of
        Inl e \<Rightarrow> Inl e
      | Inr acc \<Rightarrow>
          if isArray item then convertArray env item acc
          else if item = Str ''object'' then transformObject env item ctx
          else (case acc of
                  VArr vs \<Rightarrow> Inr (VArr (vs @ [embed item]))
                | _ \<Rightarrow> Inr (VArr [acc, embed item])))"

text \<open>
  Where an exception can come from. The module itself throws a \<open>ValidationError\<close> with
  one of two messages, and the runtime throws \<open>TypeError\<close> and \<open>SyntaxError\<close> under
  it. A builder of the library is one the registry or a member lookup hands out; the
  library raises whatever such a builder throws on some arguments.
\<close>

definition compiler_raise :: "exn \<Rightarrow> bool" where
  "compiler_raise e =
     (case e of
        ValidationError m \<Rightarrow>
          prefix ''Could not find validator '' m
          \<or> m = ''The first argument to matches() must be either a RegExp or a string''
      | TypeError \<Rightarrow> True
      | SyntaxError \<Rightarrow> True
      | _ \<Rightarrow> False)"

definition library_builder :: "'o env \<Rightarrow> 'o builder \<Rightarrow> bool" where
  "library_builder env b =
     ((\<exists>n. getCustomValidator env n = Some b) \<or> (\<exists>v name. member env v name = Some b))"

definition library_raise :: "'o env \<Rightarrow> exn \<Rightarrow> bool" where
  "library_raise env e = (\<exists>b args. library_builder env b \<and> b args = Inl e)"

definition raised :: "'o env \<Rightarrow> exn + 'a \<Rightarrow> bool" where
  "raised env r = (case r of Inl e \<Rightarrow> compiler_raise e \<or> library_raise env e | Inr v \<Rightarrow> True)"

section \<open>A sample library\<close>

text \<open>
  A library that is free over its calls, for running the converter on concrete input: an
  object is the root or records the receiver, the member name and the arguments of the
  call that made it. The root has the constructors, every other object the refinements;
  arrays, strings and plain objects have no callable member in the sample. The registry
  holds two custom validators: \<open>isEven\<close>, and \<open>broken\<close>, which throws.

  The sample runtime serialises as \<open>JSON.stringify(x, null, 4)\<close> does: four spaces for
  each level, a property with the value \<open>undefined\<close> left out, \<open>undefined\<close> inside an
  array as \<open>null\<close>, a regular expression as \<open>{}\<close>, double quotes, backslashes and
  control characters escaped. \<open>sample_toString\<close> is the text of \<open>String(x)\<close>. Both
  print a number that is an integer in decimal, which is JavaScript's text below
  \<open>10^21\<close>; any other finite number is printed by its integer part, and a regular
  expression by its source between slashes, so the sample is JavaScript's only on
  integers and on sources that are not empty and have no slash. Of the patterns, the
  sample rejects \<open>(\<close>, an unterminated group, and accepts any other.
\<close>

datatype obj = Root | Call obj string "obj val list" | Custom string "obj val list"

fun join :: "string \<Rightarrow> string list \<Rightarrow> string" where
  "join sep [] = []"
| "join sep [x] = x"
| "join sep (x # y # ys) = x @ sep @ join sep (y # ys)"

definition int_text :: "int \<Rightarrow> string" where
  "int_text i = (if i < 0 then ''-'' @ string_of_nat (nat (- i)) else string_of_nat (nat i))"

fun number_text :: "number \<Rightarrow> string" where
  "number_text NaN = ''NaN''"
| "number_text PosInf = ''Infinity''"
| "number_text NegInf = ''-Infinity''"
| "number_text (Finite q) = int_text \<lfloor>q\<rfloor>"

fun json_number :: "number \<Rightarrow> string" where
  "json_number (Finite q) = int_text \<lfloor>q\<rfloor>"
| "json_number n = ''null''"

definition json_escape :: "char \<Rightarrow> string" where
  "json_escape c =
     (if c = CHR 0x22 then [CHR 0x5C, CHR 0x22]
      else if c = CHR 0x5C then [CHR 0x5C, CHR 0x5C]
      else if c = CHR 0x08 then [CHR 0x5C, CHR ''b'']
      else if c = CHR 0x0C then [CHR 0x5C, CHR ''f'']
      else if c = CHR 0x0A then [CHR 0x5C, CHR ''n'']
      else if c = CHR 0x0D then [CHR 0x5C, CHR ''r'']
      else if c = CHR 0x09 then [CHR 0x5C, CHR ''t'']
      else if (of_char c :: nat) < 32
      then [CHR 0x5C] @ ''u00'' @ [''0123456789abcdef'' ! (of_char c div 16),
                                   ''0123456789abcdef'' ! (of_char c mod 16)]
      else [c])"

definition json_string :: "string \<Rightarrow> string" where
  "json_string s = [CHR 0x22] @ concat (map json_escape s) @ [CHR 0x22]"

fun stringify_at :: "nat \<Rightarrow> node \<Rightarrow> string" where
  "stringify_at ind Undefined = ''null''"
| "stringify_at ind Null = ''null''"
| "stringify_at ind (Bool b) = (if b then ''true'' else ''false'')"
| "stringify_at ind (Num n) = json_number n"
| "stringify_at ind (Str s) = json_string s"
| "stringify_at ind (RegExp r) = ''{}''"
| "stringify_at ind (Seq xs) =
     (if xs = [] then ''[]''
      else ''['' @ [CHR 0x0A]
           @ join ('','' @ [CHR 0x0A])
               (map (\<lambda>x. replicate (ind + 4) CHR '' '' @ stringify_at (ind + 4) x) xs)
           @ [CHR 0x0A] @ replicate ind CHR '' '' @ '']'')"
| "stringify_at ind (Mapping kvs) =
     (if filter (\<lambda>kv. snd kv \<noteq> Undefined) kvs = [] then ''{}''
      else ''{'' @ [CHR 0x0A]
           @ join ('','' @ [CHR 0x0A])
               (map (\<lambda>kv. replicate (ind + 4) CHR '' '' @ json_string (fst kv) @ '': ''
                            @ stringify_at (ind + 4) (snd kv))
                  (filter (\<lambda>kv. snd kv \<noteq> Undefined) kvs))
           @ [CHR 0x0A] @ replicate ind CHR '' '' @ ''}'')"

definition sample_stringify :: "node \<Rightarrow> string" where
  "sample_stringify n = (if n = Undefined then ''undefined'' else stringify_at 0 n)"

fun sample_toString :: "node \<Rightarrow> string" where
  "sample_toString Undefined = ''undefined''"
| "sample_toString Null = ''null''"
| "sample_toString (Bool b) = (if b then ''true'' else ''false'')"
| "sample_toString (Num n) = number_text n"
| "sample_toString (Str s) = s"
| "sample_toString (RegExp r) = ''/'' @ r @ ''/''"
| "sample_toString (Seq xs) =
     join '','' (map (\<lambda>x. if x = Undefined \<or> x = Null then [] else sample_toString x) xs)"
| "sample_toString (Mapping kvs) = ''[object Object]''"

definition sample_env :: "obj env" where
  "sample_env =
     \<lparr> getCustomValidator =
         (\<lambda>n. if n = Str ''isEven'' then Some (\<lambda>args. Inr (VLib (Custom ''isEven'' args)))
              else if n = Str ''broken'' then Some (\<lambda>args. Inl (OtherError ''broken''))
              else None),
       yup = Root,
       member =
         (\<lambda>v name.
            case v of
              VLib Root \<Rightarrow>
                if name \<in> set [''object'', ''string'', ''number'', ''ref'']
                then Some (\<lambda>args. Inr (VLib (Call Root name args))) else None
            | VLib x \<Rightarrow>
                if name \<in> set [''required'', ''shape'', ''min'', ''max'', ''matches'']
                then Some (\<lambda>args. Inr (VLib (Call x name args))) else None
            | _ \<Rightarrow> None),
       JSON_stringify = sample_stringify,
       toString = sample_toString,
       regexp_ok = (\<lambda>s. s \<noteq> ''('') \<rparr>"

section \<open>Termination of the converter\<close>

text \<open>
  Every call descends into the argument, except that \<open>convertArray\<close> hands the empty
  argument list of a bare name to \<open>transformAll\<close>, \<open>transformArray\<close> reads the missing
  first element of an empty array as \<open>undefined\<close>, and \<open>Object.entries\<close> of a string
  yields one entry for each character. The measure is a pair: a weight of the argument,
  then a rank of the function.
\<close>

definition entry_weight :: "node \<Rightarrow> nat" where
  "entry_weight v = (if isArray v \<or> typeof v = ''object'' then size v + 1 else 0)"

fun entries_weight :: "(string \<times> node) list \<Rightarrow> nat" where
  "entries_weight [] = 0"
| "entries_weight (kv # kvs) = entry_weight (snd kv) + entries_weight kvs"

definition call_measure where
  "call_measure c =
     (case c of
        Inl (Inl (env, n, ctx)) \<Rightarrow> (size n + 2, 2)
      | Inl (Inr (Inl (env, xs, ctx))) \<Rightarrow> (if xs = [] then 2 else size_list size xs + 1, 3)
      | Inl (Inr (Inr (env, ctx, xs, acc))) \<Rightarrow> (size_list size xs + 1, 3)
      | Inr (Inl (Inl (env, n, ctx))) \<Rightarrow> (size n + 1, 0)
      | Inr (Inl (Inr (env, ctx, kvs, acc))) \<Rightarrow> (entries_weight kvs, 4 + length kvs)
      | Inr (Inr (Inl (env, n, ctx))) \<Rightarrow> (size n + 1, 1)
      | Inr (Inr (Inr (env, ctx, xs))) \<Rightarrow> (size_list size xs + 1, 0::nat))"

lemma entry_weight_le: "entry_weight v \<le> size v + 1"
  by (simp add: entry_weight_def)

lemma entries_weight_le_snd: "entries_weight kvs \<le> size_list size (map snd kvs)"
proof (induction kvs)
  case Nil
  show ?case by simp
next
  case (Cons kv kvs)
  have "entry_weight (snd kv) \<le> size (snd kv) + 1" by (rule entry_weight_le)
  with Cons show ?case by simp
qed

lemma entries_weight_le_prod:
  "entries_weight kvs \<le> size_list (size_prod (\<lambda>_. 0) size) kvs"
proof (induction kvs)
  case Nil
  show ?case by simp
next
  case (Cons kv kvs)
  have "entry_weight (snd kv) \<le> size (snd kv) + 1" by (rule entry_weight_le)
  with Cons show ?case by (cases kv) simp
qed

lemma entries_weight_scalars:
  "(\<And>kv. kv \<in> set kvs \<Longrightarrow> entry_weight (snd kv) = 0) \<Longrightarrow> entries_weight kvs = 0"
  by (induction kvs) auto

lemma indexed_snd: "map snd (map (\<lambda>i. (f i, xs ! i)) [0..<length xs]) = xs"
  by (simp add: o_def map_nth)

lemma Object_entries_weight:
  "Object_entries n = Inr kvs \<Longrightarrow> entries_weight kvs < size n + 1"
proof (cases n)
  case (Str s)
  assume "Object_entries n = Inr kvs"
  with Str have kvs: "kvs = map (\<lambda>i. (string_of_nat i, Str [s ! i])) [0..<length s]" by simp
  have "entries_weight kvs = 0"
    by (rule entries_weight_scalars) (auto simp: kvs entry_weight_def)
  then show ?thesis by simp
next
  case (Seq xs)
  assume "Object_entries n = Inr kvs"
  with Seq have kvs: "kvs = map (\<lambda>i. (string_of_nat i, xs ! i)) [0..<length xs]" by simp
  have "entries_weight kvs \<le> size_list size (map snd kvs)" by (rule entries_weight_le_snd)
  also have "map snd kvs = xs" unfolding kvs by (rule indexed_snd)
  finally show ?thesis using Seq by simp
next
  case (Mapping m)
  assume "Object_entries n = Inr kvs"
  with Mapping have "kvs = m" by simp
  with entries_weight_le_prod [of m] Mapping show ?thesis by simp
qed auto

lemma matchesArgs_size:
  "matchesArgs env f args = Inr args' \<Longrightarrow> size_list size args' = size_list size args"
  by (cases args) (auto simp: matchesArgs_def split: if_splits node.splits)

lemma isPrefixNotation_nonempty: "isPrefixNotation xs \<Longrightarrow> xs \<noteq> []"
  by auto

lemma ensureArray_head_array:
  "isArray (first (ensureArray a)) \<Longrightarrow>
     ensureArray a \<noteq> [] \<and> size_list size (ensureArray a) < Suc (size a)"
  by (cases a) auto

lemma size_list_tl: "size_list size (tl xs) \<le> size_list size (xs :: node list)"
  by (cases xs) auto

lemma ensureArray_tl_size: "size_list size (tl (ensureArray a)) \<le> size a"
proof (cases a)
  case (Seq xs)
  have "size_list size (tl xs) \<le> size_list size xs" by (rule size_list_tl)
  with Seq show ?thesis by simp
qed auto

lemma matchesArgs_tl_size:
  "matchesArgs env f (tl (ensureArray a)) = Inr args' \<Longrightarrow> size_list size args' \<le> size a"
  using matchesArgs_size [of env f "tl (ensureArray a)" args'] ensureArray_tl_size [of a]
  by simp

lemma first_size: "xs \<noteq> [] \<Longrightarrow> Suc (size (first xs)) \<le> size_list size xs"
  by (cases xs) auto

lemma tl_size_less: "xs \<noteq> [] \<Longrightarrow> size_list size (tl xs) < size_list size (xs :: node list)"
  by (cases xs) auto

lemma isArray_size: "isArray v \<Longrightarrow> size v = Suc (size_list size (ensureArray v))"
  by (cases v) auto

termination convertArray
  apply (relation "inv_image (less_than <*lex*> less_than) call_measure")
  apply (auto simp: call_measure_def entry_weight_def isArray_size
              dest: ensureArray_head_array matchesArgs_tl_size first_size tl_size_less
                    Object_entries_weight isPrefixNotation_nonempty)
  done


declare convertArray.simps [simp del] transformArray.simps [simp del]
  transformObject.simps [simp del]

section \<open>Default context\<close>

lemma dflt_idem [simp]: "dflt env (dflt env ctx) = dflt env ctx"
  by (simp add: dflt_def)

lemma dflt_undefined [simp]: "dflt env VUndefined = VLib (yup env)"
  by (simp add: dflt_def)

lemma dflt_root [simp]: "dflt env (VLib x) = VLib x"
  by (simp add: dflt_def)

lemma getYupFunction_dflt [simp]:
  "getYupFunction env n (dflt env ctx) = getYupFunction env n ctx"
  unfolding getYupFunction_def dflt_idem by (rule refl)

lemma transformAll_dflt [simp]:
  "transformAll env n (dflt env ctx) = transformAll env n ctx"
  by (cases n) simp_all

lemma transformObject_dflt [simp]:
  "transformObject env n (dflt env ctx) = transformObject env n ctx"
  apply (subst transformObject.simps)
  apply (subst transformObject.simps)
  unfolding dflt_idem by (rule refl)

lemma transformArray_dflt [simp]:
  "transformArray env xs (dflt env ctx) = transformArray env xs ctx"
  apply (subst transformArray.simps)
  apply (subst transformArray.simps)
  unfolding dflt_idem by (rule refl)

lemma convertArray_dflt [simp]:
  "convertArray env a (dflt env ctx) = convertArray env a ctx"
  apply (subst convertArray.simps)
  apply (subst convertArray.simps)
  unfolding dflt_idem getYupFunction_dflt by (rule refl)

section \<open>Nested names\<close>

text \<open>
  C10. When the name slot of an invocation is itself a sequence, \<open>convertArray\<close> drops
  the chaining context it was given: the whole node is compiled as a chain of its own,
  whose first element is compiled against the library root and whose remaining elements
  are folded with the library root as the chain's context. The result is the same under
  any two contexts.
\<close>

theorem convertArray_nested_name:
  "convertArray env (Seq (Seq h # rest)) ctx = transformArray env (Seq h # rest) VUndefined
   \<and> transformArray env (Seq h # rest) VUndefined =
       (case convertArray env (Seq h) (VLib (yup env)) of
          Inl e \<Rightarrow> Inl e
        | Inr acc \<Rightarrow> transformArray_forEach env (VLib (yup env)) rest acc)
   \<and> convertArray env (Seq (Seq h # rest)) ctx = convertArray env (Seq (Seq h # rest)) ctx'"
  by (simp add: convertArray.simps [of env "Seq (Seq h # rest)"]
                transformArray.simps [of env "Seq h # rest"] cong: sum.case_cong)

section \<open>Chains\<close>

lemma chain_step_Inl [simp]: "chain_step env ctx (Inl e) item = Inl e"
  by (simp add: chain_step_def)

lemma chain_step_Inr:
  "chain_step env ctx (Inr acc) item =
     (if isArray item then convertArray env item acc
      else if item = Str ''object'' then transformObject env item ctx
      else Inr (if isArrayV acc then VArr (elements acc @ [embed item])
                else VArr [acc, embed item]))"
  by (cases acc) (simp_all add: chain_step_def)

lemma foldl_chain_step_Inl [simp]: "foldl (chain_step env ctx) (Inl e) items = Inl e"
  by (induction items) simp_all

lemma forEach_foldl:
  "transformArray_forEach env ctx items acc = foldl (chain_step env ctx) (Inr acc) items"
proof (induction items arbitrary: acc)
  case Nil
  show ?case by simp
next
  case (Cons item items)
  show ?case
  proof (cases "isArray item")
    case True
    then show ?thesis
      by (cases "convertArray env item acc") (simp_all add: chain_step_Inr Cons.IH)
  next
    case False
    show ?thesis
    proof (cases "item = Str ''object''")
      case True
      then show ?thesis
        by (cases "transformObject env (Str ''object'') ctx")
           (simp_all add: chain_step_Inr Cons.IH)
    next
      case False
      with \<open>\<not> isArray item\<close> show ?thesis
        by (simp add: chain_step_Inr Cons.IH)
    qed
  qed
qed

text \<open>
  C7. A chain is a fold from the left over its remaining elements, started with the
  compiled first element. On an element that is neither an array nor the marker
  \<open>object\<close>, the loop continues with the accumulator extended by the raw element when the
  accumulator is an array, and with the pair of accumulator and raw element otherwise.
\<close>

theorem chain_literal_elements:
  "transformArray env xs ctx =
     foldl (chain_step env (dflt env ctx)) (convertArray env (first xs) ctx) (tl xs)
   \<and> (\<not> isArray item \<and> item \<noteq> Str ''object'' \<longrightarrow>
        transformArray_forEach env c (item # items) acc =
          transformArray_forEach env c items
            (if isArrayV acc then VArr (elements acc @ [embed item])
             else VArr [acc, embed item]))"
proof
  show "transformArray env xs ctx =
     foldl (chain_step env (dflt env ctx)) (convertArray env (first xs) ctx) (tl xs)"
    by (cases "convertArray env (first xs) ctx")
       (simp_all add: transformArray.simps [of env xs] forEach_foldl)
next
  show "\<not> isArray item \<and> item \<noteq> Str ''object'' \<longrightarrow>
        transformArray_forEach env c (item # items) acc =
          transformArray_forEach env c items
            (if isArrayV acc then VArr (elements acc @ [embed item])
             else VArr [acc, embed item])"
    by simp
qed

lemma Object_entries_object:
  "Object_entries (Str ''object'') =
     Inr [(''0'', Str ''o''), (''1'', Str ''b''), (''2'', Str ''j''),
          (''3'', Str ''e''), (''4'', Str ''c''), (''5'', Str ''t'')]"
  by (simp add: string_of_nat.simps upt_rec)

text \<open>
  C8. On the element \<open>'object'\<close> the loop replaces the accumulator by the result of
  \<open>transformObject\<close> on that element, under the chain's own context. That result is the
  object of the six characters of the marker, whatever the accumulator was.
\<close>

theorem shape_continuation_marker:
  "transformArray_forEach env ctx (Str ''object'' # items) acc =
     (case transformObject env (Str ''object'') ctx of
        Inl e \<Rightarrow> Inl e
      | Inr shape \<Rightarrow> transformArray_forEach env ctx items shape)
   \<and> transformObject env (Str ''object'') ctx =
       Inr (VObj [(''0'', VStr ''o''), (''1'', VStr ''b''), (''2'', VStr ''j''),
                  (''3'', VStr ''e''), (''4'', VStr ''c''), (''5'', VStr ''t'')])"
  by (simp add: transformObject.simps Object_entries_object set_prop_def del: Object_entries.simps)

section \<open>Shapes\<close>

text \<open>
  C9. A regular expression bound to a key does not stay as it is: \<open>typeof\<close> calls
  it an object, so \<open>transformObject\<close> recurses into it and binds the key to an empty
  object. A \<open>null\<close> bound to a key raises \<open>TypeError\<close>, for the same reason.
  \<open>transformAll\<close> does leave a regular expression alone.
\<close>

theorem transformObject_regexp_null:
  "transformObject env (Mapping [(''a'', RegExp ''x'')]) ctx = Inr (VObj [(''a'', VObj [])])
   \<and> transformObject env (Mapping [(''a'', Null)]) ctx = Inl TypeError
   \<and> transformAll env (RegExp ''x'') ctx = Inr (VRegExp ''x'')"
  by (simp add: transformObject.simps set_prop_def)

section \<open>Classification\<close>

lemma indexOf_from_sublist: "(indexOf_from s sub i = None) = (\<not> sublist sub s)"
  by (induction s arbitrary: i) (auto simp: sublist_Cons_right)

lemma isPrefixNotation_invocation: "isPrefixNotation xs = invocation xs"
  by (induction xs rule: isPrefixNotation.induct)
     (simp_all add: invocation.simps [of "_ # _"] invocation.simps [of "[]"] indexOf_def
        indexOf_from_sublist)

lemma transformAll_map_Cons:
  "(transformAll_map env ctx (x # xs) = Inr ws) =
     (\<exists>v vs. ws = v # vs \<and> transformAll env x ctx = Inr v \<and> transformAll_map env ctx xs = Inr vs)"
  by (cases "transformAll env x ctx"; cases "transformAll_map env ctx xs") auto

lemma transformAll_map_Inr:
  "(transformAll_map env ctx xs = Inr vs) =
     list_all2 (\<lambda>x v. transformAll env x ctx = Inr v) xs vs"
proof (induction xs arbitrary: vs)
  case Nil
  show ?case by auto
next
  case (Cons x xs)
  have "(transformAll_map env ctx (x # xs) = Inr vs) =
     (\<exists>v us. vs = v # us \<and> transformAll env x ctx = Inr v \<and> transformAll_map env ctx xs = Inr us)"
    by (rule transformAll_map_Cons)
  also have "\<dots> = (\<exists>v us. vs = v # us \<and> transformAll env x ctx = Inr v \<and>
      list_all2 (\<lambda>x v. transformAll env x ctx = Inr v) xs us)"
    unfolding Cons.IH by (rule refl)
  also have "\<dots> = list_all2 (\<lambda>x v. transformAll env x ctx = Inr v) (x # xs) vs"
    unfolding list_all2_Cons1 by (rule refl)
  finally show ?case .
qed

lemma transformAll_map_Inl:
  "(transformAll_map env ctx xs = Inl e) =
     (\<exists>pre x post. xs = pre @ x # post
        \<and> (\<forall>p \<in> set pre. \<exists>v. transformAll env p ctx = Inr v)
        \<and> transformAll env x ctx = Inl e)"
proof (induction xs)
  case Nil
  show ?case by simp
next
  case (Cons y ys)
  show ?case
  proof (cases "transformAll env y ctx")
    case (Inl e')
    have "(\<exists>pre x post. y # ys = pre @ x # post
        \<and> (\<forall>p \<in> set pre. \<exists>v. transformAll env p ctx = Inr v)
        \<and> transformAll env x ctx = Inl e) = (e' = e)"
    proof
      assume "\<exists>pre x post. y # ys = pre @ x # post
        \<and> (\<forall>p \<in> set pre. \<exists>v. transformAll env p ctx = Inr v)
        \<and> transformAll env x ctx = Inl e"
      then obtain pre x post where eq: "y # ys = pre @ x # post"
        and ok: "\<forall>p \<in> set pre. \<exists>v. transformAll env p ctx = Inr v"
        and bad: "transformAll env x ctx = Inl e" by blast
      show "e' = e"
      proof (cases pre)
        case Nil
        with eq bad Inl show ?thesis by simp
      next
        case (Cons p ps)
        with eq ok Inl show ?thesis by simp
      qed
    next
      assume "e' = e"
      with Inl have "y # ys = [] @ y # ys \<and> (\<forall>p \<in> set []. \<exists>v. transformAll env p ctx = Inr v)
        \<and> transformAll env y ctx = Inl e" by simp
      then show "\<exists>pre x post. y # ys = pre @ x # post
        \<and> (\<forall>p \<in> set pre. \<exists>v. transformAll env p ctx = Inr v)
        \<and> transformAll env x ctx = Inl e" by blast
    qed
    with Inl show ?thesis by simp
  next
    case (Inr v)
    have "(\<exists>pre x post. y # ys = pre @ x # post
        \<and> (\<forall>p \<in> set pre. \<exists>v. transformAll env p ctx = Inr v)
        \<and> transformAll env x ctx = Inl e) =
      (\<exists>pre x post. ys = pre @ x # post
        \<and> (\<forall>p \<in> set pre. \<exists>v. transformAll env p ctx = Inr v)
        \<and> transformAll env x ctx = Inl e)"
    proof
      assume "\<exists>pre x post. y # ys = pre @ x # post
        \<and> (\<forall>p \<in> set pre. \<exists>v. transformAll env p ctx = Inr v)
        \<and> transformAll env x ctx = Inl e"
      then obtain pre x post where eq: "y # ys = pre @ x # post"
        and ok: "\<forall>p \<in> set pre. \<exists>v. transformAll env p ctx = Inr v"
        and bad: "transformAll env x ctx = Inl e" by blast
      show "\<exists>pre x post. ys = pre @ x # post
        \<and> (\<forall>p \<in> set pre. \<exists>v. transformAll env p ctx = Inr v)
        \<and> transformAll env x ctx = Inl e"
      proof (cases pre)
        case Nil
        with eq bad Inr show ?thesis by simp
      next
        case (Cons p ps)
        with eq ok have "ys = ps @ x # post"
          and "\<forall>p \<in> set ps. \<exists>v. transformAll env p ctx = Inr v" by simp_all
        with bad show ?thesis by blast
      qed
    next
      assume "\<exists>pre x post. ys = pre @ x # post
        \<and> (\<forall>p \<in> set pre. \<exists>v. transformAll env p ctx = Inr v)
        \<and> transformAll env x ctx = Inl e"
      then obtain pre x post where eq: "ys = pre @ x # post"
        and ok: "\<forall>p \<in> set pre. \<exists>v. transformAll env p ctx = Inr v"
        and bad: "transformAll env x ctx = Inl e" by blast
      from eq ok Inr have "y # ys = (y # pre) @ x # post"
        and "\<forall>p \<in> set (y # pre). \<exists>v. transformAll env p ctx = Inr v" by simp_all
      with bad show "\<exists>pre x post. y # ys = pre @ x # post
        \<and> (\<forall>p \<in> set pre. \<exists>v. transformAll env p ctx = Inr v)
        \<and> transformAll env x ctx = Inl e" by blast
    qed
    with Inr Cons.IH show ?thesis
      by (cases "transformAll_map env ctx ys") simp_all
  qed
qed

text \<open>
  C3. \<open>transformAll\<close> compiles a sequence as a chain exactly when the sequence is an
  invocation in the sense of the specification. Any other sequence is compiled element by
  element under the same context: it succeeds with the array of the elements' results when
  every element succeeds, and fails with the error of the first element that fails.
\<close>

theorem sequence_classification:
  "(invocation xs \<longrightarrow> transformAll env (Seq xs) ctx = transformArray env xs ctx)
   \<and> (\<not> invocation xs \<longrightarrow>
        (\<forall>v. (transformAll env (Seq xs) ctx = Inr v) =
              (\<exists>vs. v = VArr vs \<and> list_all2 (\<lambda>x w. transformAll env x ctx = Inr w) xs vs))
        \<and> (\<forall>e. (transformAll env (Seq xs) ctx = Inl e) =
              (\<exists>pre x post. xs = pre @ x # post
                 \<and> (\<forall>p \<in> set pre. \<exists>w. transformAll env p ctx = Inr w)
                 \<and> transformAll env x ctx = Inl e)))"
proof (intro conjI impI allI)
  assume "invocation xs"
  then show "transformAll env (Seq xs) ctx = transformArray env xs ctx"
    by (simp add: isPrefixNotation_invocation)
next
  fix v
  assume "\<not> invocation xs"
  then have eq: "transformAll env (Seq xs) ctx =
      (case transformAll_map env (dflt env ctx) xs of Inl e \<Rightarrow> Inl e | Inr vs \<Rightarrow> Inr (VArr vs))"
    by (simp add: isPrefixNotation_invocation)
  show "(transformAll env (Seq xs) ctx = Inr v) =
        (\<exists>vs. v = VArr vs \<and> list_all2 (\<lambda>x w. transformAll env x ctx = Inr w) xs vs)"
    unfolding eq using transformAll_map_Inr [of env "dflt env ctx" xs]
    by (cases "transformAll_map env (dflt env ctx) xs") auto
next
  fix e
  assume "\<not> invocation xs"
  then have eq: "transformAll env (Seq xs) ctx =
      (case transformAll_map env (dflt env ctx) xs of Inl e \<Rightarrow> Inl e | Inr vs \<Rightarrow> Inr (VArr vs))"
    by (simp add: isPrefixNotation_invocation)
  show "(transformAll env (Seq xs) ctx = Inl e) =
        (\<exists>pre x post. xs = pre @ x # post
                 \<and> (\<forall>p \<in> set pre. \<exists>w. transformAll env p ctx = Inr w)
                 \<and> transformAll env x ctx = Inl e)"
    unfolding eq using transformAll_map_Inl [of env "dflt env ctx" xs e]
    by (cases "transformAll_map env (dflt env ctx) xs") simp_all
qed

section \<open>Name resolution against the specification\<close>

lemma indexOf_from_shift:
  "indexOf_from s sub i = map_option (\<lambda>k. i + k) (indexOf_from s sub 0)"
proof (induction s arbitrary: i)
  case Nil
  show ?case by simp
next
  case (Cons c cs)
  show ?case
  proof (cases "prefix sub (c # cs)")
    case True
    then show ?thesis by simp
  next
    case False
    have "indexOf_from cs sub (Suc i) = map_option (\<lambda>k. Suc i + k) (indexOf_from cs sub 0)"
      by (rule Cons.IH)
    moreover have "indexOf_from cs sub (Suc 0) = map_option (\<lambda>k. Suc 0 + k) (indexOf_from cs sub 0)"
      by (rule Cons.IH)
    ultimately show ?thesis using False
      by (simp add: option.map_comp o_def)
  qed
qed

lemma bare_name_indexOf:
  "bare_name s =
     map_option (\<lambda>k. drop (length ''yup.'') (drop k s)) (indexOf_from s ''yup.'' 0)"
proof (induction s)
  case Nil
  show ?case by simp
next
  case (Cons c cs)
  show ?case
  proof (cases "prefix ''yup.'' (c # cs)")
    case True
    then show ?thesis by simp
  next
    case False
    have "indexOf_from cs ''yup.'' (Suc 0) = map_option (\<lambda>k. Suc 0 + k) (indexOf_from cs ''yup.'' 0)"
      by (rule indexOf_from_shift)
    with False Cons.IH show ?thesis
      by (auto simp: option.map_comp o_def)
  qed
qed

lemma drop_after: "drop (i + length sub) s = drop (length sub) (drop i s)"
  by (simp add: add.commute)

lemma getSubString_bare_name:
  "getSubString (Str name) ''yup.'' = Inr (map_option Str (bare_name name))"
proof (cases "indexOf_from name ''yup.'' 0")
  case None
  then show ?thesis by (simp add: indexOf_def bare_name_indexOf)
next
  case (Some k)
  then have "name \<noteq> []" by auto
  with Some show ?thesis
    unfolding getSubString.simps drop_after indexOf_def bare_name_indexOf by simp
qed

text \<open>
  C4. A builder found in the custom registry is returned whatever the name and the
  context are. For a name of the registry's miss, \<open>getYupFunction\<close> follows the
  resolution order of the specification: marker required, then the callable member of the
  context, then the callable member of the library root, then the name-resolution error
  that carries the name. This holds for every name with at least one character after its
  first marker; a name that ends with its first marker gets the name-resolution error
  without any lookup.
\<close>

theorem name_resolution:
  "(getCustomValidator env (Str name) = Some custom \<longrightarrow>
      getYupFunction env (Str name) ctx = Inr custom)
   \<and> (bare_name name \<noteq> Some [] \<longrightarrow>
        getYupFunction env (Str name) ctx = resolve_name env name ctx)
   \<and> (getCustomValidator env (Str name) = None \<and> bare_name name = Some [] \<longrightarrow>
        getYupFunction env (Str name) ctx =
          Inl (ValidationError (''Could not find validator '' @ name)))"
proof (intro conjI impI)
  assume "getCustomValidator env (Str name) = Some custom"
  then show "getYupFunction env (Str name) ctx = Inr custom"
    by (simp add: getYupFunction_def)
next
  assume "bare_name name \<noteq> Some []"
  then show "getYupFunction env (Str name) ctx = resolve_name env name ctx"
    by (cases "getCustomValidator env (Str name)"; cases "bare_name name")
       (simp_all add: getYupFunction_def resolve_name_def getSubString_bare_name
          del: getSubString.simps cong: sum.case_cong option.case_cong)
next
  assume "getCustomValidator env (Str name) = None \<and> bare_name name = Some []"
  then show "getYupFunction env (Str name) ctx =
          Inl (ValidationError (''Could not find validator '' @ name))"
    by (simp add: getYupFunction_def getSubString_bare_name del: getSubString.simps)
qed

section \<open>Invocations\<close>

lemma convertArray_invoke:
  assumes "\<not> isArray (first (ensureArray a))"
    and "getYupFunction env (first (ensureArray a)) ctx = Inr gotFunc"
    and "matchesArgs env (first (ensureArray a)) (tl (ensureArray a)) = Inr args"
    and "transformAll env (Seq args) ctx = Inr cv"
  shows "convertArray env a ctx =
           (case cv of
              VArr vs \<Rightarrow> if length (filter truthy vs) < 1 then gotFunc [] else gotFunc vs
            | _ \<Rightarrow> gotFunc [cv])"
  using assms by (simp add: convertArray.simps [of env a ctx])

text \<open>
  C6. Once the name is resolved and the raw arguments are compiled: a compiled array
  without a truthy element calls the builder with no argument, a compiled array with a
  truthy element calls it with the elements of the array, and anything that is not an
  array is passed as the single argument.
\<close>

theorem argument_list_policy:
  assumes "\<not> isArray (first (ensureArray a))"
    and "getYupFunction env (first (ensureArray a)) ctx = Inr gotFunc"
    and "matchesArgs env (first (ensureArray a)) (tl (ensureArray a)) = Inr args"
    and "transformAll env (Seq args) ctx = Inr cv"
  shows "convertArray env a ctx =
           (if isArrayV cv
            then (if (\<forall>v \<in> set (elements cv). \<not> truthy v) then gotFunc []
                  else gotFunc (elements cv))
            else gotFunc [cv])"
proof -
  have "convertArray env a ctx =
           (case cv of
              VArr vs \<Rightarrow> if length (filter truthy vs) < 1 then gotFunc [] else gotFunc vs
            | _ \<Rightarrow> gotFunc [cv])"
    using assms by (rule convertArray_invoke)
  then show ?thesis
    by (cases cv) (simp_all add: filter_empty_conv)
qed







section \<open>Where exceptions come from\<close>







lemma raised_Inr [simp]: "raised env (Inr v)"
  by (simp add: raised_def)








section \<open>The entry point\<close>

text \<open>
  C1. For an argument that is not an array, the \<open>try\<close> block of \<open>transform\<close> runs
  the very compilation it runs for the explicit chain object, required, shape of the
  argument. So \<open>transform\<close> returns a validator for the one exactly when it returns the
  same validator for the other, and fails for the one exactly when it fails for the other.
  A \<open>ValidationError\<close> is wrapped with the serialisation of the argument actually given.
\<close>

theorem bare_mapping_shortcut:
  assumes "\<not> isArray node"
  shows "transform_try env node =
           transform_try env
             (Seq [Seq [Str ''yup.object''], Seq [Str ''yup.required''],
                   Seq [Str ''yup.shape'', node]])
         \<and> (transform env node = Inr v) =
             (transform env
                (Seq [Seq [Str ''yup.object''], Seq [Str ''yup.required''],
                      Seq [Str ''yup.shape'', node]]) = Inr v)
         \<and> (\<exists>e. transform env node = Inl e) =
             (\<exists>e. transform env
                (Seq [Seq [Str ''yup.object''], Seq [Str ''yup.required''],
                      Seq [Str ''yup.shape'', node]]) = Inl e)
         \<and> (transform_try env node = Inl (ValidationError m) \<longrightarrow>
              transform env node =
                Inl (Error (''Could not validate '' @ JSON_stringify env node
                              @ [CHR 0x0A] @ m))
              \<and> transform env
                    (Seq [Seq [Str ''yup.object''], Seq [Str ''yup.required''],
                          Seq [Str ''yup.shape'', node]]) =
                  Inl (Error (''Could not validate ''
                                @ JSON_stringify env
                                    (Seq [Seq [Str ''yup.object''], Seq [Str ''yup.required''],
                                          Seq [Str ''yup.shape'', node]])
                                @ [CHR 0x0A] @ m)))"
proof -
  let ?chain = "Seq [Seq [Str ''yup.object''], Seq [Str ''yup.required''],
                     Seq [Str ''yup.shape'', node]]"
  from assms have eq: "transform_try env node = transform_try env ?chain"
    unfolding transform_try_def by simp
  have "(transform env node = Inr v) = (transform env ?chain = Inr v)"
    unfolding transform_def eq
    by (cases "transform_try env ?chain") (auto split: exn.splits)
  moreover have "(\<exists>e. transform env node = Inl e) = (\<exists>e. transform env ?chain = Inl e)"
    unfolding transform_def eq
    by (cases "transform_try env ?chain") (auto split: exn.splits)
  moreover have "transform_try env node = Inl (ValidationError m) \<longrightarrow>
      transform env node =
        Inl (Error (''Could not validate '' @ JSON_stringify env node @ [CHR 0x0A] @ m))
      \<and> transform env ?chain =
          Inl (Error (''Could not validate '' @ JSON_stringify env ?chain @ [CHR 0x0A] @ m))"
    unfolding transform_def eq [symmetric] by simp
  ultimately show ?thesis using eq by blast
qed





section \<open>Runs on the sample library\<close>

lemmas run_simps =
  transform_def transform_try_def convertArray.simps transformArray.simps
  transformObject.simps getYupFunction_def indexOf_def matchesArgs_def sample_env_def
  set_prop_def

text \<open>C1 on the sample library: a bare mapping with one field and its explicit chain.\<close>

theorem bare_mapping_shortcut_witness:
  "\<not> isArray (Mapping [(''x'', Seq [Seq [Str ''yup.number'']])])
   \<and> transform sample_env
         (Seq [Seq [Str ''yup.object''], Seq [Str ''yup.required''],
               Seq [Str ''yup.shape'', Mapping [(''x'', Seq [Seq [Str ''yup.number'']])]]]) =
       Inr (VLib (Call (Call (Call Root ''object'' []) ''required'' []) ''shape''
                    [VObj [(''x'', VLib (Call Root ''number'' []))]]))"
proof -
  have h: "\<not> isArray (Mapping [(''x'', Seq [Seq [Str ''yup.number'']])])" by simp
  have r: "transform sample_env (Mapping [(''x'', Seq [Seq [Str ''yup.number'']])]) =
      Inr (VLib (Call (Call (Call Root ''object'' []) ''required'' []) ''shape''
                    [VObj [(''x'', VLib (Call Root ''number'' []))]]))"
    by (simp add: run_simps)
  from bare_mapping_shortcut [OF h, where env = sample_env
      and v = "VLib (Call (Call (Call Root ''object'' []) ''required'' []) ''shape''
                    [VObj [(''x'', VLib (Call Root ''number'' []))]])"] r
  have "transform sample_env
         (Seq [Seq [Str ''yup.object''], Seq [Str ''yup.required''],
               Seq [Str ''yup.shape'', Mapping [(''x'', Seq [Seq [Str ''yup.number'']])]]]) =
       Inr (VLib (Call (Call (Call Root ''object'' []) ''required'' []) ''shape''
                    [VObj [(''x'', VLib (Call Root ''number'' []))]]))"
    by blast
  with h show ?thesis by blast
qed


text \<open>C3 on the sample library: an invocation, and a list of two literals.\<close>

theorem sequence_classification_witness:
  "invocation [Seq [Str ''yup.number'']]
   \<and> transformAll sample_env (Seq [Seq [Str ''yup.number'']]) VUndefined =
       transformArray sample_env [Seq [Str ''yup.number'']] VUndefined
   \<and> \<not> invocation [Str ''a'', Bool True]
   \<and> transformAll sample_env (Seq [Str ''a'', Bool True]) VUndefined =
       Inr (VArr [VStr ''a'', VBool True])"
proof -
  have i: "invocation [Seq [Str ''yup.number'']]"
    by (simp add: isPrefixNotation_invocation [symmetric] indexOf_def)
  have n: "\<not> invocation [Str ''a'', Bool True]"
    by (simp add: isPrefixNotation_invocation [symmetric] indexOf_def)
  have l: "list_all2 (\<lambda>x w. transformAll sample_env x VUndefined = Inr w)
             [Str ''a'', Bool True] [VStr ''a'', VBool True]"
    by simp
  from sequence_classification [of "[Seq [Str ''yup.number'']]" sample_env VUndefined] i
  have a: "transformAll sample_env (Seq [Seq [Str ''yup.number'']]) VUndefined =
       transformArray sample_env [Seq [Str ''yup.number'']] VUndefined"
    by blast
  from sequence_classification [of "[Str ''a'', Bool True]" sample_env VUndefined] n l
  have b: "transformAll sample_env (Seq [Str ''a'', Bool True]) VUndefined =
       Inr (VArr [VStr ''a'', VBool True])"
    by blast
  from i n a b show ?thesis by blast
qed

text \<open>C4 on the sample library: the name \<open>yup.min\<close> against a number schema.\<close>

theorem name_resolution_witness:
  "bare_name ''yup.min'' \<noteq> Some []
   \<and> getYupFunction sample_env (Str ''yup.min'') (VLib (Call Root ''number'' [])) =
       resolve_name sample_env ''yup.min'' (VLib (Call Root ''number'' []))
   \<and> (case resolve_name sample_env ''yup.min'' (VLib (Call Root ''number'' [])) of
         Inl e \<Rightarrow> Inl e
       | Inr f \<Rightarrow> f [VNum (Finite 5)]) =
       Inr (VLib (Call (Call Root ''number'' []) ''min'' [VNum (Finite 5)]))"
proof -
  have h: "bare_name ''yup.min'' \<noteq> Some []" by simp
  from name_resolution [of sample_env "''yup.min''" _ "VLib (Call Root ''number'' [])"] h
  have e: "getYupFunction sample_env (Str ''yup.min'') (VLib (Call Root ''number'' [])) =
       resolve_name sample_env ''yup.min'' (VLib (Call Root ''number'' []))"
    by blast
  have v: "(case resolve_name sample_env ''yup.min'' (VLib (Call Root ''number'' [])) of
         Inl e \<Rightarrow> Inl e
       | Inr f \<Rightarrow> f [VNum (Finite 5)]) =
       Inr (VLib (Call (Call Root ''number'' []) ''min'' [VNum (Finite 5)]))"
    by (simp add: resolve_name_def sample_env_def dflt_def)
  from h e v show ?thesis by blast
qed


text \<open>C6 on the sample library: one truthy argument, and one falsy argument.\<close>

theorem argument_list_policy_witness:
  "convertArray sample_env (Seq [Str ''yup.min'', Num (Finite 50)])
     (VLib (Call Root ''number'' [])) =
   Inr (VLib (Call (Call Root ''number'' []) ''min'' [VNum (Finite 50)]))
   \<and> convertArray sample_env (Seq [Str ''yup.required'', Bool False])
       (VLib (Call Root ''number'' [])) =
     Inr (VLib (Call (Call Root ''number'' []) ''required'' []))"
proof -
  let ?ctx = "VLib (Call Root ''number'' [])"
  have h1: "\<not> isArray (first (ensureArray (Seq [Str ''yup.min'', Num (Finite 50)])))" by simp
  have g1: "getYupFunction sample_env (first (ensureArray (Seq [Str ''yup.min'', Num (Finite 50)])))
      ?ctx = Inr (\<lambda>args. Inr (VLib (Call (Call Root ''number'' []) ''min'' args)))"
    by (simp add: getYupFunction_def indexOf_def sample_env_def dflt_def)
  have m1: "matchesArgs sample_env (first (ensureArray (Seq [Str ''yup.min'', Num (Finite 50)])))
      (tl (ensureArray (Seq [Str ''yup.min'', Num (Finite 50)]))) = Inr [Num (Finite 50)]"
    by (simp add: matchesArgs_def)
  have t1: "transformAll sample_env (Seq [Num (Finite 50)]) ?ctx = Inr (VArr [VNum (Finite 50)])"
    by simp
  have h2: "\<not> isArray (first (ensureArray (Seq [Str ''yup.required'', Bool False])))" by simp
  have g2: "getYupFunction sample_env (first (ensureArray (Seq [Str ''yup.required'', Bool False])))
      ?ctx = Inr (\<lambda>args. Inr (VLib (Call (Call Root ''number'' []) ''required'' args)))"
    by (simp add: getYupFunction_def indexOf_def sample_env_def dflt_def)
  have m2: "matchesArgs sample_env (first (ensureArray (Seq [Str ''yup.required'', Bool False])))
      (tl (ensureArray (Seq [Str ''yup.required'', Bool False]))) = Inr [Bool False]"
    by (simp add: matchesArgs_def)
  have t2: "transformAll sample_env (Seq [Bool False]) ?ctx = Inr (VArr [VBool False])"
    by simp
  from argument_list_policy [OF h1 g1 m1 t1]
  have a: "convertArray sample_env (Seq [Str ''yup.min'', Num (Finite 50)]) ?ctx =
      Inr (VLib (Call (Call Root ''number'' []) ''min'' [VNum (Finite 50)]))"
    by simp
  from argument_list_policy [OF h2 g2 m2 t2]
  have b: "convertArray sample_env (Seq [Str ''yup.required'', Bool False]) ?ctx =
      Inr (VLib (Call (Call Root ''number'' []) ''required'' []))"
    by simp
  from a b show ?thesis by blast
qed

text \<open>C7 on the sample library: a literal after a reference.\<close>

theorem chain_literal_elements_witness:
  "\<not> isArray (Str ''msg'') \<and> Str ''msg'' \<noteq> Str ''object''
   \<and> transformArray_forEach sample_env (VLib Root) [Str ''msg'']
         (VLib (Call Root ''ref'' [VStr ''a''])) =
       Inr (VArr [VLib (Call Root ''ref'' [VStr ''a'']), VStr ''msg''])"
proof -
  have h: "\<not> isArray (Str ''msg'') \<and> Str ''msg'' \<noteq> Str ''object''" by simp
  from chain_literal_elements [where item = "Str ''msg''" and env = sample_env
      and c = "VLib Root" and items = "[]" and acc = "VLib (Call Root ''ref'' [VStr ''a''])"] h
  have "transformArray_forEach sample_env (VLib Root) [Str ''msg'']
         (VLib (Call Root ''ref'' [VStr ''a''])) =
       transformArray_forEach sample_env (VLib Root) []
         (if isArrayV (VLib (Call Root ''ref'' [VStr ''a'']))
          then VArr (elements (VLib (Call Root ''ref'' [VStr ''a''])) @ [embed (Str ''msg'')])
          else VArr [VLib (Call Root ''ref'' [VStr ''a'']), embed (Str ''msg'')])"
    by blast
  with h show ?thesis by simp
qed

text \<open>C8 on the sample library: the marker followed by a literal.\<close>

theorem shape_continuation_marker_witness:
  "transformArray_forEach sample_env (VLib Root) [Str ''object'', Str ''lit'']
     (VLib (Call Root ''string'' [])) =
   Inr (VArr [VObj [(''0'', VStr ''o''), (''1'', VStr ''b''), (''2'', VStr ''j''),
                    (''3'', VStr ''e''), (''4'', VStr ''c''), (''5'', VStr ''t'')],
              VStr ''lit''])"
proof -
  from shape_continuation_marker [where env = sample_env and ctx = "VLib Root"
      and items = "[Str ''lit'']" and acc = "VLib (Call Root ''string'' [])"]
  have "transformArray_forEach sample_env (VLib Root) [Str ''object'', Str ''lit'']
          (VLib (Call Root ''string'' [])) =
        transformArray_forEach sample_env (VLib Root) [Str ''lit'']
          (VObj [(''0'', VStr ''o''), (''1'', VStr ''b''), (''2'', VStr ''j''),
                 (''3'', VStr ''e''), (''4'', VStr ''c''), (''5'', VStr ''t'')])"
    by simp
  then show ?thesis by simp
qed

text \<open>C10 on the sample library: a chain in the name slot, under a string schema.\<close>

theorem convertArray_nested_name_witness:
  "convertArray sample_env (Seq [Seq [Str ''yup.number''], Seq [Str ''yup.required'']])
     (VLib (Call Root ''string'' [])) =
   Inr (VLib (Call (Call Root ''number'' []) ''required'' []))"
proof -
  have "transformArray sample_env [Seq [Str ''yup.number''], Seq [Str ''yup.required'']]
          VUndefined =
        Inr (VLib (Call (Call Root ''number'' []) ''required'' []))"
    by (simp add: run_simps)
  with convertArray_nested_name [where env = sample_env and h = "[Str ''yup.number'']"
      and rest = "[Seq [Str ''yup.required'']]" and ctx = "VLib (Call Root ''string'' [])"]
  show ?thesis by simp
qed

end
